theory Spec2Isabelle
  imports Complex_Main
begin

section \<open>Data model\<close>

text \<open>
  The rating library works on JavaScript numbers. They are modelled as mathematical
  reals: every finite double is a real, and the arithmetic of the model is exact, so
  the model does not know NaN, the infinities or the rounding error of a double.
  Concrete evaluations below only use inputs on which the doubles of the source
  give the same records (equal ratings, or a rating gap of 400, with small kFactors).
  The general statements about the engine are kept to what the doubles of the source
  satisfy as well on finite inputs: either no rounding of the double arithmetic
  enters them, or the statement leaves room for that rounding and the lemma behind
  it is proved for every error within that room.
  Positions are integers, as the type comment of the source says (1 = first place).
  Strings are lists of 8-bit code units.
\<close>

text \<open>The anonymous element type of the first argument of \<open>calculateMultiPlayerElo\<close>.\<close>

record participant =
  playerId :: string
  position :: int
  currentRating :: real

text \<open>\<open>EloCalculationConfig\<close> and \<open>EloCalculationResult\<close> of \<open>types/index.ts\<close>.\<close>

record EloCalculationConfig =
  kFactor :: real
  defaultRating :: real

record EloCalculationResult =
  playerId :: string
  previousRating :: real
  newRating :: real
  ratingChange :: real

text \<open>The anonymous element type of the argument of \<open>validateMatchResults\<close>.\<close>

record player_entry =
  playerName :: string
  position :: int

text \<open>
  The six messages \<open>validateMatchResults\<close> can push, in the order of the source:
  at least two players are needed; player names must not repeat; player names must
  not be empty; ranks must lie between 1 and the number of players; ranks must start
  at 1; ranks must be contiguous without jumps. The source pushes six pairwise
  different string literals; the model keeps one constructor for each.
\<close>

datatype validation_error =
  AtLeastTwoPlayers
| DuplicateNames
| EmptyName
| PositionOutOfRange
| MustStartFromOne
| NotContiguous

record validation_result =
  isValid :: bool
  errors :: "validation_error list"

section \<open>Rating engine\<close>

definition calculateExpectedScore :: "real \<Rightarrow> real \<Rightarrow> real" where
  "calculateExpectedScore ratingA ratingB = 1 / (1 + 10 powr ((ratingB - ratingA) / 400))"

definition calculateActualScore :: "int \<Rightarrow> int \<Rightarrow> real" where
  "calculateActualScore playerPosition opponentPosition =
     (if playerPosition < opponentPosition then 1
      else if playerPosition = opponentPosition then 1 / 2
      else 0)"

text \<open>\<open>Math.round\<close>: the nearest integer, a tie going up.\<close>

definition Math_round :: "real \<Rightarrow> real" where
  "Math_round x = of_int \<lfloor>x + 1 / 2\<rfloor>"

text \<open>
  The inner loop over the opponents. The accumulator holds \<open>totalExpectedScore\<close>,
  \<open>totalActualScore\<close> and \<open>totalOpponents\<close>; an entry with the player's own
  \<open>playerId\<close> is skipped.
\<close>

fun compare_opponents :: "participant \<Rightarrow> participant list \<Rightarrow> real \<times> real \<times> nat \<Rightarrow> real \<times> real \<times> nat" where
  "compare_opponents player [] totals = totals"
| "compare_opponents player (opponent # rest) (totalExpectedScore, totalActualScore, totalOpponents) =
     (if participant.playerId player = participant.playerId opponent
      then compare_opponents player rest (totalExpectedScore, totalActualScore, totalOpponents)
      else compare_opponents player rest
        (totalExpectedScore
           + calculateExpectedScore (currentRating player) (currentRating opponent),
         totalActualScore
           + calculateActualScore (participant.position player) (participant.position opponent),
         Suc totalOpponents))"

text \<open>
  The unrounded \<open>ratingChange\<close> of the source (the averages and the ELO formula),
  computed from the totals of a player who has an opponent.
\<close>

definition unrounded_change :: "EloCalculationConfig \<Rightarrow> real \<times> real \<times> nat \<Rightarrow> real" where
  "unrounded_change config totals =
     (case totals of (totalExpectedScore, totalActualScore, totalOpponents) \<Rightarrow>
        let avgExpectedScore = totalExpectedScore / real totalOpponents;
            avgActualScore = totalActualScore / real totalOpponents
        in kFactor config * (avgActualScore - avgExpectedScore))"

text \<open>The body of the outer loop: the record pushed for one player.\<close>

definition rate_player :: "participant list \<Rightarrow> EloCalculationConfig \<Rightarrow> participant \<Rightarrow> EloCalculationResult" where
  "rate_player playerResults config player =
     (let totals = compare_opponents player playerResults (0, 0, 0) in
      if snd (snd totals) = 0
      then \<lparr> playerId = participant.playerId player,
             previousRating = currentRating player,
             newRating = currentRating player,
             ratingChange = 0 \<rparr>
      else
        let ratingChange = unrounded_change config totals;
            newRating = Math_round (currentRating player + ratingChange)
        in \<lparr> playerId = participant.playerId player,
             previousRating = currentRating player,
             newRating = max 0 newRating,
             ratingChange = Math_round ratingChange \<rparr>)"

text \<open>The outer loop: \<open>results\<close> grows by one record for each player, in input order.\<close>

fun elo_loop :: "participant list \<Rightarrow> participant list \<Rightarrow> EloCalculationConfig \<Rightarrow> EloCalculationResult list \<Rightarrow> EloCalculationResult list" where
  "elo_loop [] playerResults config results = results"
| "elo_loop (player # rest) playerResults config results =
     elo_loop rest playerResults config (results @ [rate_player playerResults config player])"

definition calculateMultiPlayerElo :: "participant list \<Rightarrow> EloCalculationConfig \<Rightarrow> EloCalculationResult list" where
  "calculateMultiPlayerElo playerResults config = elo_loop playerResults playerResults config []"

section \<open>Result validator\<close>

text \<open>
  \<open>String.prototype.trim\<close> and \<open>toLowerCase\<close> on strings of code units below 256:
  the white space and line terminators in that range are TAB, LF, VT, FF, CR, SPACE
  and NBSP; the letters with a lower case in that range are A to Z and the
  Latin-1 capitals 192 to 222 without the multiplication sign 215.
\<close>

definition is_whitespace :: "char \<Rightarrow> bool" where
  "is_whitespace c = (of_char c \<in> {9, 10, 11, 12, 13, 32, 160 :: nat})"

definition trim :: "string \<Rightarrow> string" where
  "trim s = rev (dropWhile is_whitespace (rev (dropWhile is_whitespace s)))"

definition lower_char :: "char \<Rightarrow> char" where
  "lower_char c =
     (let n = of_char c :: nat
      in if (65 \<le> n \<and> n \<le> 90) \<or> (192 \<le> n \<and> n \<le> 222 \<and> n \<noteq> 215)
         then char_of (n + 32) else c)"

definition toLowerCase :: "string \<Rightarrow> string" where
  "toLowerCase s = map lower_char s"

text \<open>
  \<open>Math.min(...positions)\<close> and \<open>Math.max(...positions)\<close>. On the empty list
  JavaScript returns \<open>Infinity\<close> and \<open>-Infinity\<close>; \<open>None\<close> stands for that value.
\<close>

fun Math_min :: "int list \<Rightarrow> int option" where
  "Math_min [] = None"
| "Math_min (x # xs) = (case Math_min xs of None \<Rightarrow> Some x | Some m \<Rightarrow> Some (min x m))"

fun Math_max :: "int list \<Rightarrow> int option" where
  "Math_max [] = None"
| "Math_max (x # xs) = (case Math_max xs of None \<Rightarrow> Some x | Some m \<Rightarrow> Some (max x m))"

text \<open>\<open>positionCounts.get(pos) || 0\<close>, and the \<open>forEach\<close> that fills the map.\<close>

definition get_or_zero :: "(int \<rightharpoonup> nat) \<Rightarrow> int \<Rightarrow> nat" where
  "get_or_zero positionCounts pos = (case positionCounts pos of None \<Rightarrow> 0 | Some c \<Rightarrow> c)"

fun count_positions :: "int list \<Rightarrow> (int \<rightharpoonup> nat) \<Rightarrow> (int \<rightharpoonup> nat)" where
  "count_positions [] positionCounts = positionCounts"
| "count_positions (pos # rest) positionCounts =
     count_positions rest (positionCounts(pos \<mapsto> get_or_zero positionCounts pos + 1))"

text \<open>
  The contiguity loop \<open>for (pos = 1; pos <= maxPosition; pos++)\<close>, started at any
  \<open>pos\<close>. It returns the error list: the first occupied position that is not
  \<open>expectedNextPosition\<close> pushes the error and breaks.
\<close>

function contiguity_loop :: "int \<Rightarrow> int \<Rightarrow> (int \<rightharpoonup> nat) \<Rightarrow> int \<Rightarrow> validation_error list \<Rightarrow> validation_error list" where
  "contiguity_loop pos maxPosition positionCounts expectedNextPosition errs =
     (if pos \<le> maxPosition then
        let count = get_or_zero positionCounts pos in
        if count > 0 then
          if pos \<noteq> expectedNextPosition then errs @ [NotContiguous]
          else contiguity_loop (pos + 1) maxPosition positionCounts (pos + int count) errs
        else contiguity_loop (pos + 1) maxPosition positionCounts expectedNextPosition errs
      else errs)"
  by pat_completeness auto
termination
  by (relation "measure (\<lambda>(pos, maxPosition, _, _, _). nat (maxPosition + 1 - pos))") auto

declare contiguity_loop.simps [simp del]

text \<open>
  \<open>validateMatchResults\<close>. Each \<open>errors.push\<close> is a new version of the list. The
  array \<open>sortedPositions\<close> of the source is never read and is left out.
\<close>

definition validateMatchResults :: "player_entry list \<Rightarrow> validation_result" where
  "validateMatchResults playerResults =
     (let errors0 = [];
          errors1 = (if length playerResults < 2 then errors0 @ [AtLeastTwoPlayers] else errors0);
          playerNames = map (\<lambda>p. toLowerCase (trim (playerName p))) playerResults;
          uniqueNames = set playerNames;
          errors2 = (if length playerNames \<noteq> card uniqueNames
                     then errors1 @ [DuplicateNames] else errors1);
          emptyNames = filter (\<lambda>p. trim (playerName p) = []) playerResults;
          errors3 = (if length emptyNames > 0 then errors2 @ [EmptyName] else errors2);
          positions = map player_entry.position playerResults;
          validPositions =
            list_all (\<lambda>pos. pos \<ge> 1 \<and> pos \<le> int (length playerResults)) positions;
          errors4 = (if \<not> validPositions then errors3 @ [PositionOutOfRange] else errors3);
          minPosition = Math_min positions;
          maxPosition = Math_max positions;
          errors5 = (if minPosition \<noteq> Some 1 then errors4 @ [MustStartFromOne] else errors4);
          positionCounts = count_positions positions Map.empty;
          errors6 = (case maxPosition of
                       None \<Rightarrow> errors5
                     | Some m \<Rightarrow> contiguity_loop 1 m positionCounts 1 errors5)
      in \<lparr> isValid = (length errors6 = 0), errors = errors6 \<rparr>)"

section \<open>Notions used to state the properties\<close>

text \<open>The entries the inner loop does not skip for a player: the player's opponents.\<close>

definition opponents_of :: "participant \<Rightarrow> participant list \<Rightarrow> participant list" where
  "opponents_of player playerResults =
     filter (\<lambda>opponent. participant.playerId player \<noteq> participant.playerId opponent) playerResults"

text \<open>What one entry adds to \<open>totalActualScore\<close> of a player: nothing when it is skipped.\<close>

definition pair_score :: "participant \<Rightarrow> participant \<Rightarrow> real" where
  "pair_score p opp =
     (if participant.playerId p = participant.playerId opp then 0
      else calculateActualScore (participant.position p) (participant.position opp))"

text \<open>The contiguity check run on its own, from an empty error list.\<close>

definition contiguity_errors :: "int list \<Rightarrow> validation_error list" where
  "contiguity_errors positions =
     (case Math_max positions of
        None \<Rightarrow> []
      | Some m \<Rightarrow> contiguity_loop 1 m (count_positions positions Map.empty) 1 [])"

text \<open>The number of entries placed at a position from \<open>lo\<close> up to, not including, \<open>hi\<close>.\<close>

definition entries_between :: "int list \<Rightarrow> int \<Rightarrow> int \<Rightarrow> nat" where
  "entries_between positions lo hi = length (filter (\<lambda>p. lo \<le> p \<and> p < hi) positions)"

section \<open>The loops of the rating engine as sums\<close>

lemma elo_loop_map:
  "elo_loop players playerResults config results
     = results @ map (rate_player playerResults config) players"
  by (induction players arbitrary: results) simp_all

lemma calculateMultiPlayerElo_map:
  "calculateMultiPlayerElo playerResults config
     = map (rate_player playerResults config) playerResults"
  by (simp add: calculateMultiPlayerElo_def elo_loop_map)

lemma compare_opponents_sums:
  "compare_opponents player ps (e, a, n) =
     (e + (\<Sum>opponent\<leftarrow>opponents_of player ps.
             calculateExpectedScore (currentRating player) (currentRating opponent)),
      a + (\<Sum>opponent\<leftarrow>opponents_of player ps.
             calculateActualScore (participant.position player) (participant.position opponent)),
      n + length (opponents_of player ps))"
  by (induction ps arbitrary: e a n) (simp_all add: opponents_of_def)

lemma no_opponent_iff:
  "snd (snd (compare_opponents p ps (0, 0, 0))) = 0 \<longleftrightarrow> opponents_of p ps = []"
  by (simp add: compare_opponents_sums)

lemma rate_player_playerId:
  "EloCalculationResult.playerId (rate_player ps config p) = participant.playerId p"
  by (simp add: rate_player_def Let_def)

lemma rate_player_previousRating: "previousRating (rate_player ps config p) = currentRating p"
  by (simp add: rate_player_def Let_def)

subsection \<open>Rounding\<close>

lemma Math_round_zero: "Math_round 0 = 0"
  by (simp add: Math_round_def)

lemma Math_round_bounds: "x - 1 / 2 < Math_round x" "Math_round x \<le> x + 1 / 2"
  unfolding Math_round_def by linarith+


lemma Math_round_sum_int: "\<exists>m :: int. (\<Sum>p\<leftarrow>ps. Math_round (y p)) = of_int m"
proof (induction ps)
  case Nil
  show ?case by (intro exI [of _ 0]) simp
next
  case (Cons p ps)
  then obtain m :: int where "(\<Sum>p\<leftarrow>ps. Math_round (y p)) = of_int m" by blast
  then show ?case
    by (intro exI [of _ "\<lfloor>y p + 1 / 2\<rfloor> + m"]) (simp add: Math_round_def)
qed

subsection \<open>Pairwise symmetry of the scores\<close>

lemma expected_equal: "calculateExpectedScore r r = 1 / 2"
  by (simp add: calculateExpectedScore_def)

lemma actual_symmetry: "calculateActualScore p q + calculateActualScore q p = 1"
  by (simp add: calculateActualScore_def)

lemma pair_score_symmetry:
  "pair_score p q + pair_score q p
   = (if participant.playerId p = participant.playerId q then 0 else 1)"
  by (simp add: pair_score_def actual_symmetry)

subsection \<open>Sums over the opponents\<close>

lemma sum_list_swap:
  "(\<Sum>x\<leftarrow>xs. \<Sum>y\<leftarrow>ys. (f x y :: real)) = (\<Sum>y\<leftarrow>ys. \<Sum>x\<leftarrow>xs. f x y)"
  by (induction xs) (simp_all add: sum_list_addf)

lemma sum_list_abs_bound:
  "(\<And>x. x \<in> set xs \<Longrightarrow> \<bar>f x\<bar> \<le> (c :: real)) \<Longrightarrow> \<bar>\<Sum>x\<leftarrow>xs. f x\<bar> \<le> c * real (length xs)"
proof (induction xs)
  case Nil
  then show ?case by simp
next
  case (Cons x xs)
  have "\<bar>f x\<bar> \<le> c" using Cons.prems by simp
  moreover have "\<bar>\<Sum>x\<leftarrow>xs. f x\<bar> \<le> c * real (length xs)"
    using Cons by simp
  ultimately show ?case
    by (simp add: algebra_simps)
qed

text \<open>
  Rounded values \<open>y\<close> that are within \<open>e\<close> of exact values \<open>x\<close> with sum 0: as long
  as all the errors together stay below 1/4, the roundings add up to at most half
  their number.
\<close>

lemma rounded_sum_tolerance:
  assumes close: "\<And>p. p \<in> set ps \<Longrightarrow> \<bar>y p - x p\<bar> \<le> e"
    and zero: "(\<Sum>p\<leftarrow>ps. x p) = 0"
    and small: "real (length ps) * e \<le> 1 / 4"
  shows "\<bar>\<Sum>p\<leftarrow>ps. Math_round (y p)\<bar> \<le> real (length ps) / 2"
proof -
  let ?n = "length ps"
  obtain m :: int where m: "(\<Sum>p\<leftarrow>ps. Math_round (y p)) = of_int m"
    using Math_round_sum_int by blast
  have "(\<Sum>p\<leftarrow>ps. Math_round (y p))
      = (\<Sum>p\<leftarrow>ps. Math_round (y p) - y p) + (\<Sum>p\<leftarrow>ps. y p - x p) + (\<Sum>p\<leftarrow>ps. x p)"
    by (simp add: sum_list_subtractf)
  moreover have "\<bar>\<Sum>p\<leftarrow>ps. Math_round (y p) - y p\<bar> \<le> (1 / 2) * real ?n"
  proof (rule sum_list_abs_bound)
    fix p
    show "\<bar>Math_round (y p) - y p\<bar> \<le> 1 / 2"
      using Math_round_bounds [of "y p"] by linarith
  qed
  moreover have "\<bar>\<Sum>p\<leftarrow>ps. y p - x p\<bar> \<le> e * real ?n"
    by (rule sum_list_abs_bound) (rule close)
  ultimately have "\<bar>real_of_int m\<bar> \<le> real ?n / 2 + 1 / 4"
    using zero small unfolding m by (simp add: mult.commute)
  then have "2 * \<bar>m\<bar> \<le> int ?n"
    by linarith
  then have "\<bar>real_of_int m\<bar> \<le> real ?n / 2"
    by linarith
  then show ?thesis
    by (simp only: m)
qed

lemma sum_list_affine:
  "(\<Sum>x\<leftarrow>xs. k * (f x / n - 1 / 2)) = k * ((\<Sum>x\<leftarrow>xs. f x) / n - real (length xs) / 2)"
  for k n :: real
  by (induction xs) (simp_all add: algebra_simps add_divide_distrib)

lemma cancel_average: "N \<noteq> 0 \<Longrightarrow> k * (n * N / 2 / N - n / 2) = 0" for k n N :: real
  by simp

lemma opponents_count:
  assumes "distinct (map participant.playerId ps)" and "p \<in> set ps"
  shows "length (opponents_of p ps) = length ps - 1"
proof -
  have "filter (\<lambda>opp. participant.playerId p = participant.playerId opp) ps = [p]"
    using assms
  proof (induction ps)
    case Nil
    then show ?case by simp
  next
    case (Cons q qs)
    show ?case
    proof (cases "p = q")
      case True
      have "\<And>opp. opp \<in> set qs \<Longrightarrow> participant.playerId p \<noteq> participant.playerId opp"
        using Cons.prems True by auto
      then have "filter (\<lambda>opp. participant.playerId p = participant.playerId opp) qs = []"
        by (simp add: filter_empty_conv)
      with True show ?thesis by simp
    next
      case False
      then have "p \<in> set qs" using Cons.prems by simp
      moreover have "participant.playerId p \<noteq> participant.playerId q"
        using Cons.prems calculation by (auto simp: image_iff)
      ultimately show ?thesis using Cons by simp
    qed
  qed
  then have "length (filter (\<lambda>opp. participant.playerId p = participant.playerId opp) ps) = 1"
    by simp
  moreover have "length (filter (\<lambda>opp. participant.playerId p = participant.playerId opp) ps)
      + length (opponents_of p ps) = length ps"
    unfolding opponents_of_def by (rule sum_length_filter_compl)
  ultimately show ?thesis by simp
qed

lemma actual_total_as_pair_scores:
  "(\<Sum>opp\<leftarrow>opponents_of p ps.
      calculateActualScore (participant.position p) (participant.position opp))
   = (\<Sum>opp\<leftarrow>ps. pair_score p opp)"
proof -
  have "pair_score p = (\<lambda>opp. if participant.playerId p \<noteq> participant.playerId opp
      then calculateActualScore (participant.position p) (participant.position opp) else 0)"
    by (rule ext) (simp add: pair_score_def)
  then show ?thesis
    by (simp only: opponents_of_def sum_list_map_filter')
qed

lemma opponents_length_as_sum:
  "real (length (opponents_of p ps))
   = (\<Sum>opp\<leftarrow>ps. if participant.playerId p = participant.playerId opp then 0 else 1)"
proof -
  have "real (length (filter P xs)) = (\<Sum>x\<leftarrow>xs. if P x then 1 else 0)"
    for P and xs :: "participant list"
    by (induction xs) simp_all
  from this [of "\<lambda>opp. participant.playerId p \<noteq> participant.playerId opp" ps]
  have "real (length (opponents_of p ps))
      = (\<Sum>opp\<leftarrow>ps. if participant.playerId p \<noteq> participant.playerId opp then 1 else 0)"
    by (simp only: opponents_of_def)
  also have "(\<lambda>opp. if participant.playerId p \<noteq> participant.playerId opp then 1 else 0 :: real)
      = (\<lambda>opp. if participant.playerId p = participant.playerId opp then 0 else 1)"
    by (rule ext) simp
  finally show ?thesis .
qed

text \<open>Every pair of different players shares one point, so all actual scores add up
  to the number of ordered pairs, halved.\<close>

lemma pair_scores_total:
  assumes "distinct (map participant.playerId ps)"
  shows "2 * (\<Sum>p\<leftarrow>ps. \<Sum>opp\<leftarrow>ps. pair_score p opp) = real (length ps) * real (length ps - 1)"
proof -
  let ?T = "\<Sum>p\<leftarrow>ps. \<Sum>opp\<leftarrow>ps. pair_score p opp"
  have "?T + ?T = ?T + (\<Sum>p\<leftarrow>ps. \<Sum>opp\<leftarrow>ps. pair_score opp p)"
    by (subst (2) sum_list_swap) simp
  also have "\<dots> = (\<Sum>p\<leftarrow>ps. \<Sum>opp\<leftarrow>ps. pair_score p opp + pair_score opp p)"
    by (simp add: sum_list_addf)
  also have "\<dots> = (\<Sum>p\<leftarrow>ps. real (length (opponents_of p ps)))"
    by (simp only: pair_score_symmetry opponents_length_as_sum)
  also have "\<dots> = (\<Sum>p\<leftarrow>ps. real (length ps - 1))"
    by (rule arg_cong [where f = sum_list], rule map_cong [OF refl])
       (simp add: opponents_count [OF assms])
  also have "\<dots> = real (length ps) * real (length ps - 1)"
    by (simp add: sum_list_triv)
  finally show ?thesis by simp
qed

section \<open>Properties of the rating engine\<close>

text \<open>
  Claim C7. For every input list and every kFactor the engine returns a list of the
  same length, whose i-th record carries the playerId of the i-th participant and that
  participant's currentRating as previousRating: nobody is dropped, duplicated or
  reordered.
\<close>

theorem engine_keeps_participants:
  "length (calculateMultiPlayerElo playerResults config) = length playerResults \<and>
   map EloCalculationResult.playerId (calculateMultiPlayerElo playerResults config)
     = map participant.playerId playerResults \<and>
   map previousRating (calculateMultiPlayerElo playerResults config)
     = map currentRating playerResults"
  by (simp add: calculateMultiPlayerElo_map rate_player_playerId rate_player_previousRating)

text \<open>
  Claim C6. For a list of one participant and every kFactor the engine returns exactly
  one record, with ratingChange 0 and newRating equal to the participant's
  currentRating.
\<close>

theorem single_participant_unchanged:
  "calculateMultiPlayerElo [p] config =
     [\<lparr> playerId = participant.playerId p, previousRating = currentRating p,
        newRating = currentRating p, ratingChange = 0 \<rparr>]"
  by (simp add: calculateMultiPlayerElo_def rate_player_def)

text \<open>
  Claim C5 says that every returned record has a non-negative newRating, for every
  input. A participant without an opponent keeps its currentRating, negative or not:
  a single participant rated -5 comes back with newRating -5.
\<close>

theorem lone_negative_rating_kept:
  "newRating (calculateMultiPlayerElo
     [\<lparr> participant.playerId = ''A'', position = 1, currentRating = - 5 \<rparr>]
     \<lparr> kFactor = 32, defaultRating = 1500 \<rparr> ! 0) < 0"
  by (simp add: calculateMultiPlayerElo_def rate_player_def)

text \<open>
  Claim C5, amended. The record of a participant that has at least one opponent (an
  entry with another playerId) has newRating at least 0, whatever the ratings and the
  kFactor are; the record of a participant without opponents has newRating equal to
  its currentRating.
\<close>

theorem new_rating_nonnegative_with_opponent:
  assumes "i < length playerResults"
  shows "if opponents_of (playerResults ! i) playerResults = []
         then newRating (calculateMultiPlayerElo playerResults config ! i)
                = currentRating (playerResults ! i)
         else 0 \<le> newRating (calculateMultiPlayerElo playerResults config ! i)"
  using assms
  by (simp add: calculateMultiPlayerElo_map rate_player_def Let_def no_opponent_iff)

theorem new_rating_nonnegative_with_opponent_witness:
  "(1 :: nat) < length
     [\<lparr> participant.playerId = ''A'', position = 1, currentRating = - 100 \<rparr>,
      \<lparr> participant.playerId = ''B'', position = 2, currentRating = - 100 \<rparr>] \<and>
   opponents_of \<lparr> participant.playerId = ''B'', position = 2, currentRating = - 100 \<rparr>
     [\<lparr> participant.playerId = ''A'', position = 1, currentRating = - 100 \<rparr>,
      \<lparr> participant.playerId = ''B'', position = 2, currentRating = - 100 \<rparr>] \<noteq> [] \<and>
   0 \<le> newRating (calculateMultiPlayerElo
     [\<lparr> participant.playerId = ''A'', position = 1, currentRating = - 100 \<rparr>,
      \<lparr> participant.playerId = ''B'', position = 2, currentRating = - 100 \<rparr>]
     \<lparr> kFactor = 32, defaultRating = 1500 \<rparr> ! 1)"
  using new_rating_nonnegative_with_opponent [of 1
     "[\<lparr> participant.playerId = ''A'', position = 1, currentRating = - 100 \<rparr>,
       \<lparr> participant.playerId = ''B'', position = 2, currentRating = - 100 \<rparr>]"
     "\<lparr> kFactor = 32, defaultRating = 1500 \<rparr>"]
  by (simp add: opponents_of_def)




text \<open>
  Claim C2 says that when all participants share one position every ratingChange is 0,
  whatever the ratings are. The expected score still depends on the ratings: a player
  rated 1500 who ties with a player rated 1900 gains 13 points at kFactor 32.
\<close>

theorem tie_with_unequal_ratings_changes_rating:
  "distinct (map participant.playerId
     [\<lparr> participant.playerId = ''A'', position = 1, currentRating = 1500 \<rparr>,
      \<lparr> participant.playerId = ''B'', position = 1, currentRating = 1900 \<rparr>]) \<and>
   ratingChange (calculateMultiPlayerElo
     [\<lparr> participant.playerId = ''A'', position = 1, currentRating = 1500 \<rparr>,
      \<lparr> participant.playerId = ''B'', position = 1, currentRating = 1900 \<rparr>]
     \<lparr> kFactor = 32, defaultRating = 1500 \<rparr> ! 0) = 13"
  by (simp add: calculateMultiPlayerElo_def rate_player_def unrounded_change_def
      calculateExpectedScore_def calculateActualScore_def Math_round_def)

text \<open>
  Claim C2, amended. When all participants share one position and one currentRating,
  every ratingChange the engine returns is 0, for every kFactor.
\<close>

theorem all_tied_equal_ratings_no_change:
  assumes "\<forall>p \<in> set playerResults. participant.position p = pos \<and> currentRating p = r"
  shows "\<forall>res \<in> set (calculateMultiPlayerElo playerResults config). ratingChange res = 0"
proof -
  have "ratingChange (rate_player playerResults config p) = 0" if p: "p \<in> set playerResults" for p
  proof -
    have inset: "\<And>opp. opp \<in> set (opponents_of p playerResults) \<Longrightarrow> opp \<in> set playerResults"
      by (simp add: opponents_of_def)
    have e: "(\<Sum>opponent\<leftarrow>opponents_of p playerResults.
               calculateExpectedScore (currentRating p) (currentRating opponent))
           = (\<Sum>opponent\<leftarrow>opponents_of p playerResults. 1 / 2)"
      by (rule arg_cong [where f = sum_list], rule map_cong [OF refl])
         (use assms p inset in \<open>simp add: expected_equal\<close>)
    have a: "(\<Sum>opponent\<leftarrow>opponents_of p playerResults.
               calculateActualScore (participant.position p) (participant.position opponent))
           = (\<Sum>opponent\<leftarrow>opponents_of p playerResults. 1 / 2)"
      by (rule arg_cong [where f = sum_list], rule map_cong [OF refl])
         (use assms p inset in \<open>simp add: calculateActualScore_def\<close>)
    show ?thesis
      by (simp add: rate_player_def Let_def compare_opponents_sums unrounded_change_def e a
          Math_round_zero)
  qed
  then show ?thesis
    by (simp add: calculateMultiPlayerElo_map)
qed

theorem all_tied_equal_ratings_no_change_witness:
  "list_all (\<lambda>p. participant.position p = 1 \<and> currentRating p = 1500)
     [\<lparr> participant.playerId = ''A'', position = 1, currentRating = 1500 \<rparr>,
      \<lparr> participant.playerId = ''B'', position = 1, currentRating = 1500 \<rparr>,
      \<lparr> participant.playerId = ''C'', position = 1, currentRating = 1500 \<rparr>] \<and>
   map ratingChange (calculateMultiPlayerElo
     [\<lparr> participant.playerId = ''A'', position = 1, currentRating = 1500 \<rparr>,
      \<lparr> participant.playerId = ''B'', position = 1, currentRating = 1500 \<rparr>,
      \<lparr> participant.playerId = ''C'', position = 1, currentRating = 1500 \<rparr>]
     \<lparr> kFactor = 32, defaultRating = 1500 \<rparr>) = [0, 0, 0]"
proof -
  let ?ps = "[\<lparr> participant.playerId = ''A'', position = 1, currentRating = 1500 \<rparr>,
              \<lparr> participant.playerId = ''B'', position = 1, currentRating = 1500 \<rparr>,
              \<lparr> participant.playerId = ''C'', position = 1, currentRating = 1500 \<rparr>]"
  let ?cfg = "\<lparr> kFactor = 32, defaultRating = 1500 \<rparr>"
  have h: "\<forall>p \<in> set ?ps. participant.position p = 1 \<and> currentRating p = 1500"
    by simp
  have "\<forall>res \<in> set (calculateMultiPlayerElo ?ps ?cfg). ratingChange res = 0"
    using h by (rule all_tied_equal_ratings_no_change)
  then show ?thesis
    by (simp add: calculateMultiPlayerElo_map)
qed

text \<open>
  Claim C3 says that for two or more participants with equal ratings the returned
  ratingChange values add up to exactly 0. Each change is rounded on its own, a tie
  going up: two players rated 1500 with kFactor 1 have the unrounded changes 1/2 and
  -1/2, which are returned as 1 and 0.
\<close>

theorem equal_ratings_rounded_sum_not_zero:
  "distinct (map participant.playerId
     [\<lparr> participant.playerId = ''A'', position = 1, currentRating = 1500 \<rparr>,
      \<lparr> participant.playerId = ''B'', position = 2, currentRating = 1500 \<rparr>]) \<and>
   map ratingChange (calculateMultiPlayerElo
     [\<lparr> participant.playerId = ''A'', position = 1, currentRating = 1500 \<rparr>,
      \<lparr> participant.playerId = ''B'', position = 2, currentRating = 1500 \<rparr>]
     \<lparr> kFactor = 1, defaultRating = 1500 \<rparr>) = [1, 0] \<and>
   sum_list (map ratingChange (calculateMultiPlayerElo
     [\<lparr> participant.playerId = ''A'', position = 1, currentRating = 1500 \<rparr>,
      \<lparr> participant.playerId = ''B'', position = 2, currentRating = 1500 \<rparr>]
     \<lparr> kFactor = 1, defaultRating = 1500 \<rparr>)) \<noteq> 0"
  by (simp add: calculateMultiPlayerElo_def rate_player_def unrounded_change_def
      calculateExpectedScore_def calculateActualScore_def Math_round_def)

text \<open>
  Claim C3, amended. For two or more participants with pairwise different playerIds
  and one common currentRating, for every assignment of positions and every kFactor
  whose absolute value times the number of participants is at most \<open>2 ^ 49\<close>, the
  sum of the returned ratingChange values differs from 0 by at most half the number
  of participants.

  In the exact arithmetic of the model the changes before rounding add up to 0. In
  the source each of them is a double within \<open>\<bar>kFactor\<bar> / 2 ^ 52\<close> of its exact value
  (and a possible underflow of less than \<open>1 / 2 ^ 1074\<close>): equal ratings make every
  expected score exactly 0.5; the average of the actual scores, its difference to 0.5
  and the product with kFactor are rounded once each. The bound on kFactor keeps all
  these errors together below 1/4, which is the room \<open>rounded_sum_tolerance\<close> leaves.
\<close>

theorem equal_ratings_rounded_sum_bounded:
  assumes ids: "distinct (map participant.playerId playerResults)"
    and two: "2 \<le> length playerResults"
    and same: "\<forall>p \<in> set playerResults. currentRating p = r"
    and moderate: "real (length playerResults) * \<bar>kFactor config\<bar> \<le> 2 ^ 49"
  shows "\<bar>\<Sum>res\<leftarrow>calculateMultiPlayerElo playerResults config. ratingChange res\<bar>
           \<le> real (length playerResults) / 2"
proof -
  let ?n = "length playerResults"
  let ?N = "real (?n - 1)"
  let ?A = "\<lambda>p. \<Sum>opp\<leftarrow>playerResults. pair_score p opp"
  let ?u = "\<lambda>p. unrounded_change config (compare_opponents p playerResults (0, 0, 0))"
  have N: "0 < ?N" using two by simp
  have u: "?u p = kFactor config * (?A p / ?N - 1 / 2)" if p: "p \<in> set playerResults" for p
  proof -
    have "\<And>opp. opp \<in> set (opponents_of p playerResults) \<Longrightarrow> currentRating opp = currentRating p"
      using same p by (simp add: opponents_of_def)
    then have "(\<Sum>opp\<leftarrow>opponents_of p playerResults.
                 calculateExpectedScore (currentRating p) (currentRating opp))
             = (\<Sum>opp\<leftarrow>opponents_of p playerResults. 1 / 2)"
      by (intro arg_cong [where f = sum_list] map_cong [OF refl]) (simp add: expected_equal)
    also have "\<dots> = ?N / 2"
      by (simp add: sum_list_triv opponents_count [OF ids p])
    finally have e: "(\<Sum>opp\<leftarrow>opponents_of p playerResults.
                 calculateExpectedScore (currentRating p) (currentRating opp)) = ?N / 2" .
    show ?thesis
      using N
      by (simp add: compare_opponents_sums unrounded_change_def e actual_total_as_pair_scores
          opponents_count [OF ids p])
  qed
  have "(\<Sum>p\<leftarrow>playerResults. ?u p)
      = (\<Sum>p\<leftarrow>playerResults. kFactor config * (?A p / ?N - 1 / 2))"
    by (rule arg_cong [where f = sum_list], rule map_cong [OF refl]) (rule u)
  also have "\<dots> = kFactor config * ((\<Sum>p\<leftarrow>playerResults. ?A p) / ?N - real ?n / 2)"
    by (rule sum_list_affine)
  also have "(\<Sum>p\<leftarrow>playerResults. ?A p) = real ?n * ?N / 2"
    using pair_scores_total [OF ids] by simp
  also have "kFactor config * (real ?n * ?N / 2 / ?N - real ?n / 2) = 0"
    by (rule cancel_average) (use N in linarith)
  finally have zero: "(\<Sum>p\<leftarrow>playerResults. ?u p) = 0" .
  have rc: "ratingChange (rate_player playerResults config p) = Math_round (?u p)"
    if p: "p \<in> set playerResults" for p
    using two
    by (simp add: rate_player_def Let_def compare_opponents_sums opponents_count [OF ids p])
  have "(\<Sum>res\<leftarrow>calculateMultiPlayerElo playerResults config. ratingChange res)
      = (\<Sum>p\<leftarrow>playerResults. ratingChange (rate_player playerResults config p))"
    by (simp add: calculateMultiPlayerElo_map comp_def)
  also have "\<dots> = (\<Sum>p\<leftarrow>playerResults. Math_round (?u p))"
    by (rule arg_cong [where f = sum_list], rule map_cong [OF refl]) (rule rc)
  finally have sum: "(\<Sum>res\<leftarrow>calculateMultiPlayerElo playerResults config. ratingChange res)
      = (\<Sum>p\<leftarrow>playerResults. Math_round (?u p))" .
  have "\<bar>\<Sum>p\<leftarrow>playerResults. Math_round (?u p)\<bar> \<le> real ?n / 2"
  proof (rule rounded_sum_tolerance [where x = ?u and e = "\<bar>kFactor config\<bar> / 2 ^ 51"])
    show "\<bar>?u p - ?u p\<bar> \<le> \<bar>kFactor config\<bar> / 2 ^ 51" for p by simp
    show "(\<Sum>p\<leftarrow>playerResults. ?u p) = 0" by (rule zero)
    show "real ?n * (\<bar>kFactor config\<bar> / 2 ^ 51) \<le> 1 / 4"
      using moderate by (simp add: mult.commute)
  qed
  then show ?thesis
    by (simp only: sum)
qed

theorem equal_ratings_rounded_sum_bounded_witness:
  "\<bar>\<Sum>res\<leftarrow>calculateMultiPlayerElo
          [\<lparr> participant.playerId = ''A'', position = 1, currentRating = 1500 \<rparr>,
           \<lparr> participant.playerId = ''B'', position = 2, currentRating = 1500 \<rparr>,
           \<lparr> participant.playerId = ''C'', position = 3, currentRating = 1500 \<rparr>]
          \<lparr> kFactor = 32, defaultRating = 1500 \<rparr>. ratingChange res\<bar> \<le> 3 / 2"
proof -
  let ?ps = "[\<lparr> participant.playerId = ''A'', position = 1, currentRating = 1500 \<rparr>,
              \<lparr> participant.playerId = ''B'', position = 2, currentRating = 1500 \<rparr>,
              \<lparr> participant.playerId = ''C'', position = 3, currentRating = 1500 \<rparr>]"
  let ?cfg = "\<lparr> kFactor = 32, defaultRating = 1500 \<rparr>"
  have ids: "distinct (map participant.playerId ?ps)" by simp
  have two: "2 \<le> length ?ps" by simp
  have same: "\<forall>p \<in> set ?ps. currentRating p = 1500" by simp
  have moderate: "real (length ?ps) * \<bar>kFactor ?cfg\<bar> \<le> 2 ^ 49" by simp
  from equal_ratings_rounded_sum_bounded [OF ids two same moderate]
  show ?thesis by simp
qed

section \<open>Properties of the result validator\<close>

subsection \<open>The error list as a concatenation\<close>

lemma contiguity_loop_append:
  "contiguity_loop pos maxPosition positionCounts expected errs
     = errs @ contiguity_loop pos maxPosition positionCounts expected []"
proof (induction pos maxPosition positionCounts expected errs rule: contiguity_loop.induct)
  case (1 pos maxPosition positionCounts expected errs)
  show ?case
  proof (cases "pos \<le> maxPosition")
    case False
    then show ?thesis by (simp add: contiguity_loop.simps)
  next
    case inrange: True
    show ?thesis
    proof (cases "get_or_zero positionCounts pos > 0")
      case False
      with inrange "1.IH"(2) show ?thesis
        by (subst (1 2) contiguity_loop.simps) simp
    next
      case occupied: True
      show ?thesis
      proof (cases "pos = expected")
        case True
        with inrange occupied "1.IH"(1) show ?thesis
          by (subst (1 2) contiguity_loop.simps) (simp add: Let_def)
      next
        case False
        with inrange occupied show ?thesis
          by (subst (1 2) contiguity_loop.simps) simp
      qed
    qed
  qed
qed

lemma loop_case:
  "(case m of None \<Rightarrow> errs | Some m \<Rightarrow> contiguity_loop 1 m positionCounts 1 errs)
      = errs @ (case m of None \<Rightarrow> [] | Some m \<Rightarrow> contiguity_loop 1 m positionCounts 1 [])"
proof (cases m)
  case None
  then show ?thesis by simp
next
  case (Some k)
  show ?thesis
    unfolding Some option.case by (rule contiguity_loop_append)
qed

lemma length_card_distinct: "length xs \<noteq> card (set xs) \<longleftrightarrow> \<not> distinct xs"
  by (metis card_distinct distinct_card)

lemma filter_nonempty: "(0 < length (filter P xs)) \<longleftrightarrow> (\<exists>x \<in> set xs. P x)"
  by (simp add: filter_empty_conv)

lemma validate_isValid:
  "isValid (validateMatchResults playerResults) = (errors (validateMatchResults playerResults) = [])"
  unfolding validateMatchResults_def Let_def
  by (simp only: validation_result.simps length_0_conv)

lemma validate_errors:
  "errors (validateMatchResults playerResults) =
     (if length playerResults < 2 then [AtLeastTwoPlayers] else []) @
     (if distinct (map (\<lambda>p. toLowerCase (trim (playerName p))) playerResults)
      then [] else [DuplicateNames]) @
     (if \<exists>p \<in> set playerResults. trim (playerName p) = [] then [EmptyName] else []) @
     (if list_all (\<lambda>pos. 1 \<le> pos \<and> pos \<le> int (length playerResults))
           (map player_entry.position playerResults)
      then [] else [PositionOutOfRange]) @
     (if Math_min (map player_entry.position playerResults) = Some 1
      then [] else [MustStartFromOne]) @
     contiguity_errors (map player_entry.position playerResults)"
  unfolding validateMatchResults_def Let_def contiguity_errors_def
  by (simp only: validation_result.simps, subst loop_case)
     (simp only: length_card_distinct filter_nonempty, simp)

text \<open>
  Claim C8. For every input list, isValid is true if and only if the returned error
  list is empty, and every check is evaluated whatever the checks before it found:
  the error list is the concatenation, in the order of the checks, of what each of the
  six checks reports on its own.
\<close>

theorem validator_collects_all_errors:
  "(isValid (validateMatchResults playerResults)
      \<longleftrightarrow> errors (validateMatchResults playerResults) = []) \<and>
   errors (validateMatchResults playerResults) =
     (if length playerResults < 2 then [AtLeastTwoPlayers] else []) @
     (if distinct (map (\<lambda>p. toLowerCase (trim (playerName p))) playerResults)
      then [] else [DuplicateNames]) @
     (if \<exists>p \<in> set playerResults. trim (playerName p) = [] then [EmptyName] else []) @
     (if list_all (\<lambda>pos. 1 \<le> pos \<and> pos \<le> int (length playerResults))
           (map player_entry.position playerResults)
      then [] else [PositionOutOfRange]) @
     (if Math_min (map player_entry.position playerResults) = Some 1
      then [] else [MustStartFromOne]) @
     contiguity_errors (map player_entry.position playerResults)"
  using validate_isValid [of playerResults] validate_errors [of playerResults]
  by (rule conjI)

text \<open>
  Claim C10. On the empty list the validator returns isValid = false and exactly two
  errors, the minimum-participants error and the must-start-from-1 error, in this
  order; no duplicate-name, empty-name, position-range or contiguity error.
\<close>

theorem validate_empty_list:
  "validateMatchResults []
     = \<lparr> isValid = False, errors = [AtLeastTwoPlayers, MustStartFromOne] \<rparr>"
  by (simp add: validateMatchResults_def)

subsection \<open>What the contiguity loop accepts\<close>

lemma get_or_zero_count_positions:
  "get_or_zero (count_positions xs m) p = get_or_zero m p + count_list xs p"
  by (induction xs arbitrary: m) (simp_all add: get_or_zero_def)

lemma get_or_zero_counts:
  "get_or_zero (count_positions xs Map.empty) p = count_list xs p"
  by (simp add: get_or_zero_count_positions) (simp add: get_or_zero_def)

lemma entries_between_empty: "entries_between xs lo lo = 0"
  by (simp add: entries_between_def)

lemma entries_between_step:
  "lo < hi \<Longrightarrow> entries_between xs lo hi = count_list xs lo + entries_between xs (lo + 1) hi"
  unfolding entries_between_def by (induction xs) auto

lemma entries_between_split:
  "lo \<le> mid \<Longrightarrow> mid \<le> hi \<Longrightarrow>
     entries_between xs lo hi = entries_between xs lo mid + entries_between xs mid hi"
  unfolding entries_between_def by (induction xs) auto

lemma entries_between_free:
  "(\<And>r. lo \<le> r \<Longrightarrow> r < hi \<Longrightarrow> r \<notin> set xs) \<Longrightarrow> entries_between xs lo hi = 0"
  unfolding entries_between_def by (auto simp: filter_empty_conv)

lemma Math_max_upper: "q \<in> set xs \<Longrightarrow> \<exists>m. Math_max xs = Some m \<and> q \<le> m"
  by (induction xs) (auto split: option.splits)

lemma Math_max_None: "Math_max xs = None \<longleftrightarrow> xs = []"
  by (cases xs) (simp_all split: option.splits)

text \<open>
  The loop invariant: started at \<open>pos\<close> with \<open>expectedNextPosition = expected\<close>, the
  loop reports a gap exactly when some occupied position \<open>q\<close> from \<open>pos\<close> to
  \<open>maxPosition\<close> is not \<open>expected\<close> plus the number of entries placed from \<open>pos\<close>
  up to \<open>q\<close>.
\<close>

lemma contiguity_loop_gap:
  assumes "\<And>p. get_or_zero positionCounts p = count_list xs p"
  shows "contiguity_loop pos maxPosition positionCounts expected [] =
     (if \<exists>q. pos \<le> q \<and> q \<le> maxPosition \<and> q \<in> set xs \<and>
             q \<noteq> expected + int (entries_between xs pos q)
      then [NotContiguous] else [])"
  using assms
proof (induction pos maxPosition positionCounts expected "[] :: validation_error list"
    rule: contiguity_loop.induct)
  case (1 pos maxPosition positionCounts expected)
  let ?gap = "\<lambda>pos expected. \<exists>q. pos \<le> q \<and> q \<le> maxPosition \<and> q \<in> set xs \<and>
             q \<noteq> expected + int (entries_between xs pos q)"
  have cnt: "get_or_zero positionCounts pos = count_list xs pos" by (rule "1.prems")
  show ?case
  proof (cases "pos \<le> maxPosition")
    case False
    then have "\<not> ?gap pos expected" by auto
    with False show ?thesis by (subst contiguity_loop.simps) simp
  next
    case inrange: True
    show ?thesis
    proof (cases "0 < count_list xs pos")
      case False
      then have free: "pos \<notin> set xs" using count_list_0_iff [of xs pos] by auto
      have "?gap pos expected \<longleftrightarrow> ?gap (pos + 1) expected"
      proof
        assume "?gap pos expected"
        then obtain q where q: "pos \<le> q" "q \<le> maxPosition" "q \<in> set xs"
          "q \<noteq> expected + int (entries_between xs pos q)" by blast
        with free have "pos < q" by (cases "pos = q") auto
        with q False show "?gap (pos + 1) expected"
          by (intro exI [of _ q]) (simp add: entries_between_step)
      next
        assume "?gap (pos + 1) expected"
        then obtain q where q: "pos + 1 \<le> q" "q \<le> maxPosition" "q \<in> set xs"
          "q \<noteq> expected + int (entries_between xs (pos + 1) q)" by blast
        with False show "?gap pos expected"
          by (intro exI [of _ q]) (simp add: entries_between_step)
      qed
      moreover have "contiguity_loop pos maxPosition positionCounts expected []
          = contiguity_loop (pos + 1) maxPosition positionCounts expected []"
        using inrange False cnt by (subst contiguity_loop.simps) simp
      ultimately show ?thesis
        using "1.hyps"(2) [OF inrange refl _ "1.prems"] False cnt by simp
    next
      case occupied: True
      then have mem: "pos \<in> set xs" using count_list_0_iff [of xs pos] by auto
      show ?thesis
      proof (cases "pos = expected")
        case False
        with inrange mem have "?gap pos expected"
          by (intro exI [of _ pos]) (simp add: entries_between_empty)
        moreover have "contiguity_loop pos maxPosition positionCounts expected [] = [NotContiguous]"
          using inrange occupied cnt False by (subst contiguity_loop.simps) simp
        ultimately show ?thesis by simp
      next
        case True
        let ?e = "pos + int (get_or_zero positionCounts pos)"
        have "?gap pos expected \<longleftrightarrow> ?gap (pos + 1) ?e"
        proof
          assume "?gap pos expected"
          then obtain q where q: "pos \<le> q" "q \<le> maxPosition" "q \<in> set xs"
            "q \<noteq> expected + int (entries_between xs pos q)" by blast
          with True have "pos < q" by (cases "pos = q") (auto simp: entries_between_empty)
          with q True cnt show "?gap (pos + 1) ?e"
            by (intro exI [of _ q]) (simp add: entries_between_step)
        next
          assume "?gap (pos + 1) ?e"
          then obtain q where q: "pos + 1 \<le> q" "q \<le> maxPosition" "q \<in> set xs"
            "q \<noteq> ?e + int (entries_between xs (pos + 1) q)" by blast
          with True cnt show "?gap pos expected"
            by (intro exI [of _ q]) (simp add: entries_between_step)
        qed
        moreover have "contiguity_loop pos maxPosition positionCounts expected []
            = contiguity_loop (pos + 1) maxPosition positionCounts ?e []"
          using inrange occupied cnt True by (subst contiguity_loop.simps) (simp add: Let_def)
        ultimately show ?thesis
          using "1.hyps"(1) [OF inrange refl _ _ "1.prems"] occupied cnt True by simp
      qed
    qed
  qed
qed

lemma contiguity_errors_gap:
  "contiguity_errors positions =
     (if \<exists>q \<in> set positions. 1 \<le> q \<and> q \<noteq> 1 + int (entries_between positions 1 q)
      then [NotContiguous] else [])"
proof (cases "Math_max positions")
  case None
  then have "positions = []" by (simp add: Math_max_None)
  with None show ?thesis by (simp add: contiguity_errors_def)
next
  case (Some m)
  have "(\<exists>q. 1 \<le> q \<and> q \<le> m \<and> q \<in> set positions \<and> q \<noteq> 1 + int (entries_between positions 1 q))
      \<longleftrightarrow> (\<exists>q \<in> set positions. 1 \<le> q \<and> q \<noteq> 1 + int (entries_between positions 1 q))"
    using Math_max_upper [of _ positions] Some by fastforce
  then show ?thesis
    by (simp add: contiguity_errors_def Some contiguity_loop_gap [OF get_or_zero_counts])
qed

text \<open>Without a contiguity error, the position after a tie group is fixed by its size.\<close>

lemma next_occupied_position:
  assumes ok: "contiguity_errors positions = []"
    and p: "p \<in> set positions" "1 \<le> p"
    and q: "q \<in> set positions" "p < q"
    and free: "\<forall>r. p < r \<and> r < q \<longrightarrow> r \<notin> set positions"
  shows "q = p + int (count_list positions p)"
proof -
  have all: "\<And>x. x \<in> set positions \<Longrightarrow> 1 \<le> x \<Longrightarrow> x = 1 + int (entries_between positions 1 x)"
    using ok by (auto simp: contiguity_errors_gap split: if_splits)
  have "entries_between positions 1 q
      = entries_between positions 1 p + entries_between positions p q"
    using p q by (intro entries_between_split) simp_all
  also have "entries_between positions p q
      = count_list positions p + entries_between positions (p + 1) q"
    using q by (intro entries_between_step)
  also have "entries_between positions (p + 1) q = 0"
    using free by (intro entries_between_free) simp
  finally show ?thesis
    using all [OF p] all [OF q(1)] p q by simp
qed

lemma no_contiguity_error:
  "NotContiguous \<notin> set (errors (validateMatchResults playerResults)) \<Longrightarrow>
     contiguity_errors (map player_entry.position playerResults) = []"
  by (simp add: validate_errors) (simp add: contiguity_errors_gap split: if_splits)

text \<open>
  Claim C9 says that any three entries whose trimmed names are non-empty and pairwise
  distinct are valid with the positions 1, 1, 3. The validator compares the names
  after trimming and lower-casing: Bob, bob and x are pairwise distinct, and the
  validator reports duplicate names.
\<close>

theorem names_differing_in_case_rejected:
  "distinct (map (\<lambda>p. trim (playerName p))
     [\<lparr> playerName = ''Bob'', position = 1 \<rparr>,
      \<lparr> playerName = ''bob'', position = 1 \<rparr>,
      \<lparr> playerName = ''x'', position = 3 \<rparr>]) \<and>
   list_all (\<lambda>p. trim (playerName p) \<noteq> [])
     [\<lparr> playerName = ''Bob'', position = 1 \<rparr>,
      \<lparr> playerName = ''bob'', position = 1 \<rparr>,
      \<lparr> playerName = ''x'', position = 3 \<rparr>] \<and>
   validateMatchResults
     [\<lparr> playerName = ''Bob'', position = 1 \<rparr>,
      \<lparr> playerName = ''bob'', position = 1 \<rparr>,
      \<lparr> playerName = ''x'', position = 3 \<rparr>]
   = \<lparr> isValid = False, errors = [DuplicateNames] \<rparr>"
proof -
  have t: "trim ''Bob'' = ''Bob''" "trim ''bob'' = ''bob''" "trim ''x'' = ''x''"
    by code_simp+
  have l: "toLowerCase ''Bob'' = ''bob''" "toLowerCase ''bob'' = ''bob''" "toLowerCase ''x'' = ''x''"
    by code_simp+
  show ?thesis
    by (simp add: validateMatchResults_def t l get_or_zero_def contiguity_loop.simps)
qed

text \<open>
  Claim C9, amended. For any three entries whose names, after trimming and
  lower-casing, are pairwise distinct and whose trimmed names are non-empty: with the
  positions 1, 1, 3 the validator returns isValid = true and no error; with the
  positions 1, 2, 4 it returns isValid = false and the errors position-out-of-range
  and non-contiguous. In general, when the validator reports no contiguity error and
  \<open>k\<close> entries share an occupied position \<open>p \<ge> 1\<close>, the next occupied position is
  \<open>p + k\<close>.
\<close>

theorem tie_aware_contiguity:
  assumes "distinct (map (\<lambda>n. toLowerCase (trim n)) [n1, n2, n3])"
    and "trim n1 \<noteq> [] \<and> trim n2 \<noteq> [] \<and> trim n3 \<noteq> []"
  shows "validateMatchResults
           [\<lparr> playerName = n1, position = 1 \<rparr>,
            \<lparr> playerName = n2, position = 1 \<rparr>,
            \<lparr> playerName = n3, position = 3 \<rparr>]
         = \<lparr> isValid = True, errors = [] \<rparr> \<and>
         validateMatchResults
           [\<lparr> playerName = n1, position = 1 \<rparr>,
            \<lparr> playerName = n2, position = 2 \<rparr>,
            \<lparr> playerName = n3, position = 4 \<rparr>]
         = \<lparr> isValid = False, errors = [PositionOutOfRange, NotContiguous] \<rparr> \<and>
         (NotContiguous \<notin> set (errors (validateMatchResults playerResults)) \<and>
          p \<in> set (map player_entry.position playerResults) \<and> 1 \<le> p \<and>
          q \<in> set (map player_entry.position playerResults) \<and> p < q \<and>
          (\<forall>r. p < r \<and> r < q \<longrightarrow> r \<notin> set (map player_entry.position playerResults))
          \<longrightarrow> q = p + int (count_list (map player_entry.position playerResults) p))"
proof (intro conjI impI)
  show "validateMatchResults
           [\<lparr> playerName = n1, position = 1 \<rparr>,
            \<lparr> playerName = n2, position = 1 \<rparr>,
            \<lparr> playerName = n3, position = 3 \<rparr>]
         = \<lparr> isValid = True, errors = [] \<rparr>"
    using assms
    by (auto simp add: validateMatchResults_def get_or_zero_def contiguity_loop.simps)
  show "validateMatchResults
           [\<lparr> playerName = n1, position = 1 \<rparr>,
            \<lparr> playerName = n2, position = 2 \<rparr>,
            \<lparr> playerName = n3, position = 4 \<rparr>]
         = \<lparr> isValid = False, errors = [PositionOutOfRange, NotContiguous] \<rparr>"
    using assms
    by (auto simp add: validateMatchResults_def get_or_zero_def contiguity_loop.simps)
next
  assume h: "NotContiguous \<notin> set (errors (validateMatchResults playerResults)) \<and>
          p \<in> set (map player_entry.position playerResults) \<and> 1 \<le> p \<and>
          q \<in> set (map player_entry.position playerResults) \<and> p < q \<and>
          (\<forall>r. p < r \<and> r < q \<longrightarrow> r \<notin> set (map player_entry.position playerResults))"
  then have "contiguity_errors (map player_entry.position playerResults) = []"
    by (intro no_contiguity_error) simp
  with h show "q = p + int (count_list (map player_entry.position playerResults) p)"
    by (intro next_occupied_position) simp_all
qed

theorem tie_aware_contiguity_witness:
  "validateMatchResults
     [\<lparr> playerName = ''Ann'', position = 1 \<rparr>,
      \<lparr> playerName = ''Bob'', position = 1 \<rparr>,
      \<lparr> playerName = ''Cy'', position = 3 \<rparr>]
   = \<lparr> isValid = True, errors = [] \<rparr> \<and>
   validateMatchResults
     [\<lparr> playerName = ''Ann'', position = 1 \<rparr>,
      \<lparr> playerName = ''Bob'', position = 2 \<rparr>,
      \<lparr> playerName = ''Cy'', position = 4 \<rparr>]
   = \<lparr> isValid = False, errors = [PositionOutOfRange, NotContiguous] \<rparr> \<and>
   (3 :: int) = 1 + int (count_list (map player_entry.position
     [\<lparr> playerName = ''Ann'', position = 1 \<rparr>,
      \<lparr> playerName = ''Bob'', position = 1 \<rparr>,
      \<lparr> playerName = ''Cy'', position = 3 \<rparr>]) 1)"
proof -
  let ?ps = "[\<lparr> playerName = ''Ann'', position = 1 \<rparr>,
              \<lparr> playerName = ''Bob'', position = 1 \<rparr>,
              \<lparr> playerName = ''Cy'', position = 3 \<rparr>]"
  have names: "distinct (map (\<lambda>n. toLowerCase (trim n)) [''Ann'', ''Bob'', ''Cy''])"
    by code_simp
  have nonempty: "trim ''Ann'' \<noteq> [] \<and> trim ''Bob'' \<noteq> [] \<and> trim ''Cy'' \<noteq> []"
    by code_simp
  note examples = tie_aware_contiguity [OF names nonempty, of ?ps 1 3]
  from examples have valid: "validateMatchResults ?ps = \<lparr> isValid = True, errors = [] \<rparr>"
    by (rule conjunct1)
  have between: "\<forall>r :: int. 1 < r \<and> r < 3 \<longrightarrow> r \<notin> set (map player_entry.position ?ps)"
    by auto
  have "NotContiguous \<notin> set (errors (validateMatchResults ?ps)) \<and>
      1 \<in> set (map player_entry.position ?ps) \<and> (1 :: int) \<le> 1 \<and>
      3 \<in> set (map player_entry.position ?ps) \<and> (1 :: int) < 3 \<and>
      (\<forall>r :: int. 1 < r \<and> r < 3 \<longrightarrow> r \<notin> set (map player_entry.position ?ps))"
    using between by (simp only: valid) simp
  with examples show ?thesis by blast
qed

end
